theory Spec2Isabelle
  imports Complex_Main
begin

section \<open>Lane boundary tracking: \<open>Graph.find_lane_pixels\<close> and \<open>Graph.fit_polynomial\<close>\<close>

text \<open>
  The development embeds the two static methods of \<open>src/graph.py\<close> that make up the
  lane tracking engine. Conventions of the embedding:
  \<^item> a two-dimensional numpy array is a record of its column count and its list of rows
    (top row first), so that an array of shape \<open>(0, W)\<close> keeps its width;
  \<^item> pixel values, column sums and x positions are unbounded \<open>int\<close>: the sums of a
    camera frame stay far below the 64-bit accumulator numpy uses;
  \<^item> every exception the Python raises is a value \<open>Inl e\<close> of a sum type;
  \<^item> the diagnostic overlay \<open>out_img\<close> (the \<open>cv2\<close> drawing calls) is not modelled: it
    does not feed back into any computed position;
  \<^item> \<open>np.int\<close> is the builtin \<open>int\<close>, as in the numpy releases the code was written for.
\<close>

subsection \<open>Arrays, errors and the numpy primitives used\<close>

datatype error = ValueError | TypeError | UnboundLocalError

record ndarray =
  ncols :: nat
  pixel_rows :: "int list list"

definition shape0 :: "ndarray \<Rightarrow> nat" where
  "shape0 a = length (pixel_rows a)"

definition shape1 :: "ndarray \<Rightarrow> nat" where
  "shape1 a = ncols a"

definition well_formed :: "ndarray \<Rightarrow> bool" where
  "well_formed a = list_all (\<lambda>r. length r = ncols a) (pixel_rows a)"

text \<open>
  A bound of a Python slice on a sequence of length \<open>n\<close>: a negative bound counts from
  the end, and both kinds are cut to the range \<open>0..n\<close>.
\<close>

definition py_bound :: "int \<Rightarrow> nat \<Rightarrow> nat" where
  "py_bound i n = (if i < 0 then nat (max 0 (i + int n)) else min (nat i) n)"

definition py_slice :: "int \<Rightarrow> int \<Rightarrow> 'a list \<Rightarrow> 'a list" where
  "py_slice lo hi xs =
     (let a = py_bound lo (length xs); b = py_bound hi (length xs)
      in take (b - a) (drop a xs))"

definition slice_len :: "int \<Rightarrow> int \<Rightarrow> nat \<Rightarrow> nat" where
  "slice_len lo hi n = py_bound hi n - py_bound lo n"

text \<open>\<open>np.sum(a, axis=0)\<close> of an array with \<open>w\<close> columns: the rows added up.\<close>

fun sum_axis0 :: "nat \<Rightarrow> int list list \<Rightarrow> int list" where
  "sum_axis0 w [] = replicate w 0"
| "sum_axis0 w (r # rs) = map2 (+) r (sum_axis0 w rs)"

text \<open>
  \<open>np.max\<close> and \<open>np.argmax\<close> raise \<open>ValueError\<close> on an empty array; \<open>np.argmax\<close>
  returns the first index that holds the maximum.
\<close>

definition amax :: "int list \<Rightarrow> int" where
  "amax xs = fold max (tl xs) (hd xs)"

definition argmax :: "int list \<Rightarrow> nat" where
  "argmax xs = length (takeWhile (\<lambda>x. x \<noteq> amax xs) xs)"

definition np_max :: "int list \<Rightarrow> error + int" where
  "np_max xs = (if xs = [] then Inl ValueError else Inr (amax xs))"

definition np_argmax :: "int list \<Rightarrow> error + int" where
  "np_argmax xs = (if xs = [] then Inl ValueError else Inr (int (argmax xs)))"

text \<open>\<open>int(s / 2)\<close> for an integer \<open>s\<close>: true division, then truncation towards zero.\<close>

definition int_half :: "int \<Rightarrow> int" where
  "int_half s = (if 0 \<le> s then s div 2 else - ((- s) div 2))"

subsection \<open>Histogram base locator (lines 374 to 394)\<close>

definition histogram :: "ndarray \<Rightarrow> int list" where
  "histogram img = sum_axis0 (shape1 img) (drop (shape0 img div 2) (pixel_rows img))"

text \<open>
  The test \<open>np.absolute((prev - base) / base) > 0.1\<close>. Both operands are integers and
  \<open>base\<close> is a numpy integer, so the quotient is a float64 and a zero \<open>base\<close> gives
  \<open>inf\<close> (for \<open>prev \<noteq> base\<close>; the test is true) or \<open>nan\<close> (for \<open>prev = base\<close>; the test is
  false) with a warning, not an exception. For a nonzero \<open>base\<close> below \<open>2^50\<close> the
  correctly rounded quotient exceeds the double nearest to 0.1 exactly when the exact
  quotient exceeds one tenth, which is the integer comparison written here.
\<close>

definition drift_exceeds :: "int \<Rightarrow> int \<Rightarrow> bool" where
  "drift_exceeds prev base =
     (if base = 0 then prev \<noteq> 0 else 10 * \<bar>prev - base\<bar> > \<bar>base\<bar>)"

definition validate_left :: "int option \<Rightarrow> int \<Rightarrow> int" where
  "validate_left last_left_base leftx_base =
     (case last_left_base of
        None \<Rightarrow> leftx_base
      | Some ll \<Rightarrow> if drift_exceeds ll leftx_base then ll else leftx_base)"

text \<open>
  Line 392 subtracts \<open>rightx_base\<close> from \<open>last_left_base\<close>; when that one is \<open>None\<close>
  the subtraction raises \<open>TypeError\<close>.
\<close>

definition validate_right :: "int option \<Rightarrow> int option \<Rightarrow> int \<Rightarrow> error + int" where
  "validate_right last_left_base last_right_base rightx_base =
     (case last_right_base of
        None \<Rightarrow> Inr rightx_base
      | Some lr \<Rightarrow>
          (case last_left_base of
             None \<Rightarrow> Inl TypeError
           | Some ll \<Rightarrow> Inr (if drift_exceeds ll rightx_base then lr else rightx_base)))"

definition new_bases :: "ndarray \<Rightarrow> error + int \<times> int" where
  "new_bases img =
     (let hist = histogram img; midpoint = length hist div 2
      in case np_argmax (take midpoint hist) of
           Inl e \<Rightarrow> Inl e
         | Inr l \<Rightarrow>
             (case np_argmax (drop midpoint hist) of
                Inl e \<Rightarrow> Inl e
              | Inr r \<Rightarrow> Inr (l, r + int midpoint)))"

definition base_locator :: "ndarray \<Rightarrow> int option \<Rightarrow> int option \<Rightarrow> error + int \<times> int" where
  "base_locator img last_left_base last_right_base =
     (case new_bases img of
        Inl e \<Rightarrow> Inl e
      | Inr (l, r) \<Rightarrow>
          (case validate_right last_left_base last_right_base r of
             Inl e \<Rightarrow> Inl e
           | Inr r' \<Rightarrow> Inr (validate_left last_left_base l, r')))"

subsection \<open>Sliding window tracker (lines 396 to 489)\<close>

definition nwindows :: nat where
  "nwindows = 15"

definition margin :: int where
  "margin = 100"

definition min_pixels :: int where
  "min_pixels = 10 * 255"

record tracker =
  leftx_current :: int
  rightx_current :: int
  prev_lane_dist :: int
  lane_dist_hist :: "int list"
  left_lane_points :: "(int \<times> int) list"
  right_lane_points :: "(int \<times> int) list"

definition init_tracker :: "int \<Rightarrow> int \<Rightarrow> tracker" where
  "init_tracker leftx_base rightx_base =
     \<lparr>leftx_current = leftx_base, rightx_current = rightx_base,
      prev_lane_dist = rightx_base - leftx_base,
      lane_dist_hist = [rightx_base - leftx_base],
      left_lane_points = [], right_lane_points = []\<rparr>"

text \<open>The window edges of lines 425 to 434, with the two clamps the code applies.\<close>

definition window_height :: "ndarray \<Rightarrow> int" where
  "window_height img = int (shape0 img) div int nwindows"

definition win_y_low :: "ndarray \<Rightarrow> nat \<Rightarrow> int" where
  "win_y_low img window =
     (let y = int (shape0 img) - (int window + 1) * window_height img
      in if y < 0 then 0 else y)"

definition win_y_high :: "ndarray \<Rightarrow> nat \<Rightarrow> int" where
  "win_y_high img window = int (shape0 img) - int window * window_height img"

definition win_xleft_low :: "tracker \<Rightarrow> int" where
  "win_xleft_low st =
     (let x = leftx_current st - margin in if x < 0 then 0 else x)"

definition win_xleft_high :: "tracker \<Rightarrow> int" where
  "win_xleft_high st = leftx_current st + margin"

definition win_xright_low :: "tracker \<Rightarrow> int" where
  "win_xright_low st = rightx_current st - margin"

definition win_xright_high :: "tracker \<Rightarrow> int" where
  "win_xright_high st = rightx_current st + margin"

text \<open>
  \<open>np.sum(binary_warped[y_low:y_high, x_low:x_high], axis=0)\<close>: the column sums of
  the sub-region, with Python's slicing on both axes.
\<close>

definition area_hist :: "ndarray \<Rightarrow> int \<Rightarrow> int \<Rightarrow> int \<Rightarrow> int \<Rightarrow> int list" where
  "area_hist img y_low y_high x_low x_high =
     sum_axis0 (slice_len x_low x_high (shape1 img))
       (map (py_slice x_low x_high) (py_slice y_low y_high (pixel_rows img)))"

text \<open>Lines 442 to 449: the candidate of one side, \<open>None\<close> below the pixel mass.\<close>

definition peak_index :: "int list \<Rightarrow> int \<Rightarrow> error + int option" where
  "peak_index area x_low =
     (case np_max area of
        Inl e \<Rightarrow> Inl e
      | Inr m \<Rightarrow>
          if m > min_pixels
          then (case np_argmax area of Inl e \<Rightarrow> Inl e | Inr k \<Rightarrow> Inr (Some (k + x_low)))
          else Inr None)"

text \<open>Lines 453 to 456: a candidate on the low edge of its window counts as not found.\<close>

definition reject_low_edge :: "int option \<Rightarrow> int \<Rightarrow> int option" where
  "reject_low_edge x_index x_low = (if x_index = Some x_low then None else x_index)"

definition find_center :: "int list \<Rightarrow> int \<Rightarrow> error + int option" where
  "find_center area x_low =
     (case peak_index area x_low of
        Inl e \<Rightarrow> Inl e
      | Inr x \<Rightarrow> Inr (reject_low_edge x x_low))"

text \<open>
  Lines 458 to 468: the four outcomes of a band. The result is the pair of positions
  used for the band, the last known width and the width history.
\<close>

fun recenter :: "int option \<Rightarrow> int option \<Rightarrow> tracker \<Rightarrow> int \<times> int \<times> int \<times> int list" where
  "recenter (Some l) (Some r) st = (l, r, r - l, lane_dist_hist st @ [r - l])"
| "recenter None None st =
     (int_half (win_xleft_low st + win_xleft_high st),
      int_half (win_xright_low st + win_xright_high st),
      prev_lane_dist st, lane_dist_hist st)"
| "recenter None (Some r) st = (r - prev_lane_dist st, r, prev_lane_dist st, lane_dist_hist st)"
| "recenter (Some l) None st = (l, l + prev_lane_dist st, prev_lane_dist st, lane_dist_hist st)"

definition detect_left :: "ndarray \<Rightarrow> nat \<Rightarrow> tracker \<Rightarrow> error + int option" where
  "detect_left img window st =
     find_center
       (area_hist img (win_y_low img window) (win_y_high img window)
          (win_xleft_low st) (win_xleft_high st))
       (win_xleft_low st)"

definition detect_right :: "ndarray \<Rightarrow> nat \<Rightarrow> tracker \<Rightarrow> error + int option" where
  "detect_right img window st =
     find_center
       (area_hist img (win_y_low img window) (win_y_high img window)
          (win_xright_low st) (win_xright_high st))
       (win_xright_low st)"

definition y_index :: "ndarray \<Rightarrow> nat \<Rightarrow> int" where
  "y_index img window = int_half (win_y_low img window + win_y_high img window)"

text \<open>One pass of the loop body, lines 424 to 477.\<close>

definition window_step :: "ndarray \<Rightarrow> nat \<Rightarrow> tracker \<Rightarrow> error + tracker" where
  "window_step img window st =
     (case detect_left img window st of
        Inl e \<Rightarrow> Inl e
      | Inr l_found \<Rightarrow>
          (case detect_right img window st of
             Inl e \<Rightarrow> Inl e
           | Inr r_found \<Rightarrow>
               (case recenter l_found r_found st of
                  (l_x_index, r_x_index, new_dist, new_hist) \<Rightarrow>
                    Inr \<lparr>leftx_current = l_x_index, rightx_current = r_x_index,
                         prev_lane_dist = new_dist, lane_dist_hist = new_hist,
                         left_lane_points =
                           left_lane_points st @ [(l_x_index, y_index img window)],
                         right_lane_points =
                           right_lane_points st @ [(r_x_index, y_index img window)]\<rparr>)))"

fun run_windows :: "ndarray \<Rightarrow> nat list \<Rightarrow> tracker \<Rightarrow> error + tracker" where
  "run_windows img [] st = Inr st"
| "run_windows img (window # ws) st =
     (case window_step img window st of
        Inl e \<Rightarrow> Inl e
      | Inr st' \<Rightarrow> run_windows img ws st')"

record lane_pixels =
  left_points :: "(int \<times> int) list"
  right_points :: "(int \<times> int) list"
  avg_lane_dist :: rat
  leftx_base :: int
  rightx_base :: int

text \<open>
  \<open>np.average\<close> of the width history is taken as the exact quotient of the sum by the
  number of samples; the float the code returns is that quotient rounded.
\<close>

definition average :: "int list \<Rightarrow> rat" where
  "average xs = of_int (sum_list xs) / of_nat (length xs)"

definition find_lane_pixels ::
  "ndarray \<Rightarrow> int option \<Rightarrow> int option \<Rightarrow> error + lane_pixels" where
  "find_lane_pixels binary_warped last_left_base last_right_base =
     (case base_locator binary_warped last_left_base last_right_base of
        Inl e \<Rightarrow> Inl e
      | Inr (lb, rb) \<Rightarrow>
          (case run_windows binary_warped [0..<nwindows] (init_tracker lb rb) of
             Inl e \<Rightarrow> Inl e
           | Inr st \<Rightarrow>
               Inr \<lparr>left_points = left_lane_points st,
                    right_points = right_lane_points st,
                    avg_lane_dist = average (lane_dist_hist st),
                    leftx_base = lb, rightx_base = rb\<rparr>))"

subsection \<open>Curve fitter (lines 337 to 363)\<close>

text \<open>
  \<open>np.polyfit\<close> and the evaluation of the fitted polynomial on \<open>ploty\<close> are floating
  point library code; they are parameters of the model (\<open>polyfit\<close> takes the y values and
  the x values, \<open>sample\<close> the coefficients and the image height). A name the code never
  assigned is \<open>None\<close> here: \<open>left_fit\<close> is bound only inside the \<open>if\<close> of line 342, and
  reading it unbound in line 355 raises \<open>UnboundLocalError\<close>, which the handler for
  \<open>TypeError\<close> in line 357 does not catch.
\<close>

definition fit_side :: "(int list \<Rightarrow> int list \<Rightarrow> 'c) \<Rightarrow> (int \<times> int) list \<Rightarrow> 'c option" where
  "fit_side polyfit points =
     (if length points \<ge> 3 then Some (polyfit (map snd points) (map fst points)) else None)"

definition fit_lines ::
  "(int list \<Rightarrow> int list \<Rightarrow> 'c) \<Rightarrow> ('c \<Rightarrow> nat \<Rightarrow> 'v) \<Rightarrow>
   (int \<times> int) list \<Rightarrow> (int \<times> int) list \<Rightarrow> nat \<Rightarrow> error + ('c \<times> 'v \<times> 'c \<times> 'v)" where
  "fit_lines polyfit sample l_points r_points h =
     (case fit_side polyfit l_points of
        None \<Rightarrow> Inl UnboundLocalError
      | Some left_fit \<Rightarrow>
          (case fit_side polyfit r_points of
             None \<Rightarrow> Inl UnboundLocalError
           | Some right_fit \<Rightarrow>
               Inr (left_fit, sample left_fit h, right_fit, sample right_fit h)))"

definition fit_polynomial ::
  "(int list \<Rightarrow> int list \<Rightarrow> 'c) \<Rightarrow> ('c \<Rightarrow> nat \<Rightarrow> 'v) \<Rightarrow>
   ndarray \<Rightarrow> int option \<Rightarrow> int option \<Rightarrow> error + (('c \<times> 'v \<times> 'c \<times> 'v) \<times> lane_pixels)" where
  "fit_polynomial polyfit sample binary_warped last_left_base last_righ_base =
     (case find_lane_pixels binary_warped last_left_base last_righ_base of
        Inl e \<Rightarrow> Inl e
      | Inr found \<Rightarrow>
          (case fit_lines polyfit sample (left_points found) (right_points found)
                  (shape0 binary_warped) of
             Inl e \<Rightarrow> Inl e
           | Inr fits \<Rightarrow> Inr (fits, found)))"

subsection \<open>Predicates and frames used in the statements\<close>


text \<open>
  A frame of 165 rows and 200 columns with values 0 and 255 and two full-height lines,
  at columns 50 and 160.
\<close>

definition frame_two_lines :: ndarray where
  "frame_two_lines =
     \<lparr>ncols = 200,
      pixel_rows = replicate 165 (replicate 50 0 @ 255 # replicate 109 0 @ 255 # replicate 39 0)\<rparr>"

text \<open>
  A frame of 165 rows and 200 columns, dark except for column 1 in its lowest band
  (rows 154 to 164).
\<close>

definition frame_low_blob :: ndarray where
  "frame_low_blob =
     \<lparr>ncols = 200,
      pixel_rows = replicate 154 (replicate 200 0) @ replicate 11 (0 # 255 # replicate 198 0)\<rparr>"

text \<open>
  A frame of 165 rows and 200 columns: columns 1 and 199 lit in rows 88 to 131,
  column 195 in rows 143 to 153 and column 98 in rows 154 to 164.
\<close>

definition frame_bend :: ndarray where
  "frame_bend =
     \<lparr>ncols = 200,
      pixel_rows =
        replicate 88 (replicate 200 0)
        @ replicate 44 (0 # 255 # replicate 197 0 @ [255])
        @ replicate 11 (replicate 200 0)
        @ replicate 11 (replicate 195 0 @ 255 # replicate 4 0)
        @ replicate 11 (replicate 98 0 @ 255 # replicate 101 0)\<rparr>"

text \<open>
  Frames of 15 rows (one row per band) with scaled intensities: one full-height line of
  intensity 3000 at column 50 of 400, one at column 130 of 300, and a dark frame.
\<close>

definition frame_left_line :: ndarray where
  "frame_left_line =
     \<lparr>ncols = 400, pixel_rows = replicate 15 (replicate 50 0 @ 3000 # replicate 349 0)\<rparr>"

definition frame_line_130 :: ndarray where
  "frame_line_130 =
     \<lparr>ncols = 300, pixel_rows = replicate 15 (replicate 130 0 @ 3000 # replicate 169 0)\<rparr>"

definition frame_dark :: ndarray where
  "frame_dark = \<lparr>ncols = 200, pixel_rows = replicate 15 (replicate 200 0)\<rparr>"

section \<open>Properties of the primitives\<close>

lemma amax_Max: "xs \<noteq> [] \<Longrightarrow> amax xs = Max (set xs)"
  by (cases xs) (simp_all add: amax_def Max.set_eq_fold[symmetric])

lemma amax_in_set: "xs \<noteq> [] \<Longrightarrow> amax xs \<in> set xs"
  by (simp add: amax_Max)

lemma amax_ge: "x \<in> set xs \<Longrightarrow> x \<le> amax xs"
  by (cases "xs = []") (simp_all add: amax_Max)

lemma argmax_less: "xs \<noteq> [] \<Longrightarrow> argmax xs < length xs"
proof (rule ccontr)
  assume ne: "xs \<noteq> []" and "\<not> argmax xs < length xs"
  then have "length (takeWhile (\<lambda>x. x \<noteq> amax xs) xs) = length xs"
    using length_takeWhile_le[of "\<lambda>x. x \<noteq> amax xs" xs] by (simp add: argmax_def)
  then have "takeWhile (\<lambda>x. x \<noteq> amax xs) xs = xs"
    by (metis takeWhile_eq_take take_all order_refl)
  then have "\<forall>x\<in>set xs. x \<noteq> amax xs"
    by simp
  with amax_in_set[OF ne] show False by blast
qed

lemma nth_argmax: "xs \<noteq> [] \<Longrightarrow> xs ! argmax xs = amax xs"
  using nth_length_takeWhile[of "\<lambda>x. x \<noteq> amax xs" xs] argmax_less[of xs]
  by (simp add: argmax_def)

lemma before_argmax:
  assumes j: "j < argmax xs"
  shows "xs ! j < amax xs"
proof -
  let ?P = "\<lambda>x. x \<noteq> amax xs"
  from j have jl: "j < length (takeWhile ?P xs)" by (simp add: argmax_def)
  then have "takeWhile ?P xs ! j \<in> set (takeWhile ?P xs)" by (rule nth_mem)
  then have "xs ! j \<in> set xs \<and> xs ! j \<noteq> amax xs"
    using takeWhile_nth[OF jl] set_takeWhileD[of "xs ! j" ?P xs] by simp
  then show ?thesis using amax_ge[of "xs ! j" xs] by simp
qed

lemma argmax_single_peak:
  assumes c: "c < length xs" and pos: "0 < xs ! c"
    and z: "\<forall>j<length xs. j \<noteq> c \<longrightarrow> xs ! j = 0"
  shows "argmax xs = c"
proof -
  from c have ne: "xs \<noteq> []" by auto
  have "xs ! c \<le> amax xs" using c amax_ge[of "xs ! c" xs] by simp
  with pos have "0 < xs ! argmax xs" by (simp add: nth_argmax[OF ne])
  with z argmax_less[OF ne] show ?thesis by force
qed

lemma sum_axis0_length: "list_all (\<lambda>r. length r = w) rs \<Longrightarrow> length (sum_axis0 w rs) = w"
  by (induction rs) simp_all

lemma sum_axis0_nth:
  "list_all (\<lambda>r. length r = w) rs \<Longrightarrow> j < w \<Longrightarrow> sum_axis0 w rs ! j = (\<Sum>r\<leftarrow>rs. r ! j)"
  by (induction rs) (simp_all add: sum_axis0_length)

section \<open>Properties of the window loop\<close>

lemma window_step_InrD:
  assumes "window_step img w st = Inr st'"
  obtains l r where "detect_left img w st = Inr l" and "detect_right img w st = Inr r"
    and "st' = \<lparr>leftx_current = fst (recenter l r st), rightx_current = fst (snd (recenter l r st)),
                 prev_lane_dist = fst (snd (snd (recenter l r st))),
                 lane_dist_hist = snd (snd (snd (recenter l r st))),
                 left_lane_points = left_lane_points st @ [(fst (recenter l r st), y_index img w)],
                 right_lane_points =
                   right_lane_points st @ [(fst (snd (recenter l r st)), y_index img w)]\<rparr>"
  using assms by (auto simp: window_step_def split: sum.splits prod.splits)


lemma window_step_points:
  assumes "window_step img w st = Inr st'"
  shows "left_lane_points st' = left_lane_points st @ [(leftx_current st', y_index img w)]"
    and "right_lane_points st' = right_lane_points st @ [(rightx_current st', y_index img w)]"
  using assms by (auto elim!: window_step_InrD)

lemma run_windows_points:
  "run_windows img ws st = Inr st' \<Longrightarrow>
     map snd (left_lane_points st') = map snd (left_lane_points st) @ map (y_index img) ws \<and>
     map snd (right_lane_points st') = map snd (right_lane_points st) @ map (y_index img) ws"
proof (induction ws arbitrary: st)
  case Nil
  then show ?case by simp
next
  case (Cons w ws)
  then obtain st1 where s1: "window_step img w st = Inr st1" and r: "run_windows img ws st1 = Inr st'"
    by (auto split: sum.splits)
  from Cons.IH[OF r] window_step_points[OF s1] show ?case by simp
qed

lemma window_step_history:
  assumes "window_step img w st = Inr st'"
    and "lane_dist_hist st \<noteq> []" and "prev_lane_dist st = last (lane_dist_hist st)"
  shows "lane_dist_hist st' \<noteq> [] \<and> prev_lane_dist st' = last (lane_dist_hist st') \<and>
         hd (lane_dist_hist st') = hd (lane_dist_hist st)"
proof -
  from assms(1) obtain l r where st': "prev_lane_dist st' = fst (snd (snd (recenter l r st)))"
      "lane_dist_hist st' = snd (snd (snd (recenter l r st)))"
    by (auto elim!: window_step_InrD)
  show ?thesis using assms(2,3) unfolding st'
    by (cases l; cases r) simp_all
qed

lemma run_windows_history:
  "run_windows img ws st = Inr st' \<Longrightarrow> lane_dist_hist st \<noteq> [] \<Longrightarrow>
   prev_lane_dist st = last (lane_dist_hist st) \<Longrightarrow>
     lane_dist_hist st' \<noteq> [] \<and> prev_lane_dist st' = last (lane_dist_hist st') \<and>
     hd (lane_dist_hist st') = hd (lane_dist_hist st)"
proof (induction ws arbitrary: st)
  case Nil
  then show ?case by simp
next
  case (Cons w ws)
  then obtain st1 where s1: "window_step img w st = Inr st1" and r: "run_windows img ws st1 = Inr st'"
    by (auto split: sum.splits)
  from window_step_history[OF s1 Cons.prems(2,3)] Cons.IH[OF r] show ?case by simp
qed

lemma find_lane_pixels_InrD:
  assumes "find_lane_pixels img ll lr = Inr px"
  obtains st where "base_locator img ll lr = Inr (leftx_base px, rightx_base px)"
    and "run_windows img [0..<nwindows] (init_tracker (leftx_base px) (rightx_base px)) = Inr st"
    and "left_points px = left_lane_points st" and "right_points px = right_lane_points st"
    and "avg_lane_dist px = average (lane_dist_hist st)"
  using assms by (auto simp: find_lane_pixels_def split: sum.splits prod.splits)


lemma band_edges:
  assumes "k < nwindows"
  shows "0 \<le> int (shape0 img) - (int k + 1) * window_height img"
    and "win_y_low img k = int (shape0 img) - (int k + 1) * window_height img"
    and "win_y_low img k \<le> win_y_high img k"
    and "win_y_high img k \<le> int (shape0 img)"
proof -
  let ?h = "int (shape0 img)"
  have wh: "0 \<le> window_height img" "15 * window_height img \<le> ?h"
    by (simp_all add: window_height_def nwindows_def)
  from assms have "int k + 1 \<le> 15" by (simp add: nwindows_def)
  with wh(1) have "(int k + 1) * window_height img \<le> 15 * window_height img"
    by (intro mult_right_mono) simp_all
  with wh(2) show a: "0 \<le> ?h - (int k + 1) * window_height img" by simp
  then show b: "win_y_low img k = ?h - (int k + 1) * window_height img"
    by (simp add: win_y_low_def Let_def)
  show "win_y_low img k \<le> win_y_high img k"
    unfolding b win_y_high_def using wh(1) by (simp add: algebra_simps)
  show "win_y_high img k \<le> ?h"
    unfolding win_y_high_def using wh(1) by simp
qed

lemma y_index_midpoint:
  assumes "k < nwindows"
  shows "y_index img k = (win_y_low img k + win_y_high img k) div 2"
proof -
  have "0 \<le> win_y_low img k" using band_edges(1,2)[OF assms, of img] by simp
  with band_edges(3)[OF assms, of img] show ?thesis by (simp add: y_index_def int_half_def)
qed

lemma y_index_step:
  assumes "Suc k < nwindows"
  shows "y_index img (Suc k) = y_index img k - window_height img"
proof -
  from assms have k: "k < nwindows" by simp
  have "win_y_low img (Suc k) + win_y_high img (Suc k)
        = win_y_low img k + win_y_high img k - 2 * window_height img"
    unfolding band_edges(2)[OF assms, of img] band_edges(2)[OF k, of img] win_y_high_def
    by (simp add: algebra_simps)
  then show ?thesis
    unfolding y_index_midpoint[OF assms] y_index_midpoint[OF k] by simp
qed

section \<open>Properties of the detection and of the base locator\<close>

lemma find_center_Some:
  "find_center area x_low = Inr (Some x) \<longleftrightarrow>
     area \<noteq> [] \<and> min_pixels < amax area \<and> x = int (argmax area) + x_low \<and> x \<noteq> x_low"
  by (auto simp: find_center_def peak_index_def reject_low_edge_def np_max_def np_argmax_def)

lemma find_center_None:
  "find_center area x_low = Inr None \<longleftrightarrow>
     area \<noteq> [] \<and> (amax area \<le> min_pixels \<or> argmax area = 0)"
  by (auto simp: find_center_def peak_index_def reject_low_edge_def np_max_def np_argmax_def)

lemma find_center_error:
  "find_center area x_low = Inl e \<longleftrightarrow> area = [] \<and> e = ValueError"
  by (auto simp: find_center_def peak_index_def reject_low_edge_def np_max_def np_argmax_def)

text \<open>The low edge of the left window and the low edge of the band are never negative.\<close>

lemma low_edges_clamped: "0 \<le> win_xleft_low st \<and> 0 \<le> win_y_low img window"
  by (simp add: win_xleft_low_def win_y_low_def Let_def)

lemma histogram_length: "well_formed img \<Longrightarrow> length (histogram img) = shape1 img"
proof -
  assume "well_formed img"
  then have "list_all (\<lambda>r. length r = shape1 img) (drop (shape0 img div 2) (pixel_rows img))"
    by (auto simp: well_formed_def shape1_def list_all_iff dest: in_set_dropD)
  then show ?thesis by (simp add: histogram_def sum_axis0_length)
qed

lemma histogram_nth:
  assumes "well_formed img" and "j < shape1 img"
  shows "histogram img ! j = (\<Sum>r\<leftarrow>drop (shape0 img div 2) (pixel_rows img). r ! j)"
proof -
  from assms(1) have "list_all (\<lambda>r. length r = shape1 img) (drop (shape0 img div 2) (pixel_rows img))"
    by (auto simp: well_formed_def shape1_def list_all_iff dest: in_set_dropD)
  with assms(2) show ?thesis by (simp add: histogram_def sum_axis0_nth)
qed

lemma new_bases_Inr:
  assumes "2 \<le> length (histogram img)"
  shows "new_bases img =
     Inr (int (argmax (take (length (histogram img) div 2) (histogram img))),
          int (argmax (drop (length (histogram img) div 2) (histogram img))) +
            int (length (histogram img) div 2))"
proof -
  let ?h = "histogram img"
  from assms have "take (length ?h div 2) ?h \<noteq> []" "drop (length ?h div 2) ?h \<noteq> []"
    by auto
  then show ?thesis by (simp add: new_bases_def Let_def np_argmax_def)
qed

lemma new_bases_range:
  assumes "new_bases img = Inr (l, r)"
  shows "0 \<le> l \<and> 0 < r"
proof -
  let ?h = "histogram img"
  from assms have ne: "take (length ?h div 2) ?h \<noteq> []"
    by (auto simp: new_bases_def Let_def np_argmax_def split: if_splits)
  then have "0 < length ?h div 2" by auto
  with assms ne show ?thesis
    by (auto simp: new_bases_def Let_def np_argmax_def split: if_splits)
qed

lemma base_locator_no_previous: "base_locator img None None = new_bases img"
  by (auto simp: base_locator_def validate_left_def validate_right_def split: sum.splits)

lemma sum_list_zero_int:
  fixes f :: "'a \<Rightarrow> int"
  shows "\<forall>x\<in>set xs. f x = 0 \<Longrightarrow> (\<Sum>x\<leftarrow>xs. f x) = 0"
  by (induction xs) simp_all

lemma sum_list_pos_int:
  fixes f :: "'a \<Rightarrow> int"
  assumes "xs \<noteq> []" and "\<forall>x\<in>set xs. 0 < f x"
  shows "0 < (\<Sum>x\<leftarrow>xs. f x)"
proof (cases xs)
  case Nil
  with assms show ?thesis by simp
next
  case (Cons a as)
  with assms have "0 < f a" and "0 \<le> (\<Sum>x\<leftarrow>as. f x)"
    by (auto intro!: sum_list_nonneg simp: less_imp_le)
  with Cons show ?thesis by simp
qed

lemma drift_ratio:
  assumes "0 < n"
  shows "drift_exceeds p n \<longleftrightarrow> (1 / 10 :: rat) < \<bar>of_int p - of_int n\<bar> / of_int n"
proof -
  have "(1 / 10 :: rat) < \<bar>of_int p - of_int n\<bar> / of_int n
        \<longleftrightarrow> (of_int n :: rat) < 10 * \<bar>of_int p - of_int n\<bar>"
    using assms by (simp add: pos_less_divide_eq mult.commute)
  also have "\<dots> \<longleftrightarrow> (of_int n :: rat) < of_int (10 * \<bar>p - n\<bar>)"
    by simp
  also have "\<dots> \<longleftrightarrow> n < 10 * \<bar>p - n\<bar>"
    by (simp only: of_int_less_iff)
  finally show ?thesis using assms by (simp add: drift_exceeds_def)
qed

lemma base_locator_left:
  assumes "new_bases img = Inr (l, r)"
  shows "\<exists>r'. base_locator img (Some p) last_right = Inr (validate_left (Some p) l, r')"
  using assms by (cases last_right) (simp_all add: base_locator_def validate_right_def)

section \<open>Properties of the whole frame call\<close>

lemma find_lane_pixels_lengths:
  assumes "find_lane_pixels img ll lr = Inr px"
  shows "length (left_points px) = nwindows \<and> length (right_points px) = nwindows"
proof -
  from assms obtain st where
    run: "run_windows img [0..<nwindows] (init_tracker (leftx_base px) (rightx_base px)) = Inr st"
    and pts: "left_points px = left_lane_points st" "right_points px = right_lane_points st"
    by (rule find_lane_pixels_InrD)
  from run_windows_points[OF run]
  have "map snd (left_points px) = map (y_index img) [0..<nwindows]"
    "map snd (right_points px) = map (y_index img) [0..<nwindows]"
    by (simp_all add: pts init_tracker_def)
  from this[THEN arg_cong, of length] show ?thesis by simp
qed

text \<open>
  Through \<open>fit_polynomial\<close> both sides always arrive with 15 points, so both are
  fitted, and an exception of the tracker leaves \<open>fit_polynomial\<close> as it is.
\<close>

lemma fit_polynomial_fits_both:
  assumes "find_lane_pixels img ll lr = Inr px"
  shows "fit_polynomial polyfit sample img ll lr =
     Inr ((polyfit (map snd (left_points px)) (map fst (left_points px)),
           sample (polyfit (map snd (left_points px)) (map fst (left_points px))) (shape0 img),
           polyfit (map snd (right_points px)) (map fst (right_points px)),
           sample (polyfit (map snd (right_points px)) (map fst (right_points px))) (shape0 img)),
          px)"
  using assms find_lane_pixels_lengths[OF assms]
  by (simp add: fit_polynomial_def fit_lines_def fit_side_def nwindows_def)

lemma fit_polynomial_error:
  "find_lane_pixels img ll lr = Inl e \<Longrightarrow> fit_polynomial polyfit sample img ll lr = Inl e"
  by (simp add: fit_polynomial_def)

lemma frame_bend_raises: "find_lane_pixels frame_bend None None = Inl ValueError"
  by code_simp

lemma fit_polynomial_frame_bend:
  "fit_polynomial polyfit sample frame_bend None None = Inl ValueError"
  by (rule fit_polynomial_error[OF frame_bend_raises])

section \<open>The claims\<close>

subsection \<open>C1: the check of the right base\<close>

text \<open>
  Claim C1 says that the new right base is compared with the previous right base. The
  code of line 392 compares it with the previous left base. On \<open>frame_two_lines\<close> with
  previous bases 50 and 150 the new right base is 160. It is within a tenth of its own
  previous value 150, so the claim keeps 160; it is far from the previous left base 50,
  so the code discards it and returns 150.
\<close>

theorem right_base_checked_against_left:
  "well_formed frame_two_lines \<and> shape0 frame_two_lines = 165 \<and>
   shape1 frame_two_lines = 200 \<and> new_bases frame_two_lines = Inr (50, 160) \<and> drift_exceeds 150 160 = False \<and>
   drift_exceeds 50 160 = True \<and>
   base_locator frame_two_lines (Some 50) (Some 150) = Inr (50, 150)"
  by code_simp

subsection \<open>C2: a side with fewer than three points\<close>


subsection \<open>C3: the four outcomes of a band\<close>



subsection \<open>C4: the drift guard of the left base\<close>

text \<open>
  Claim C4: with a positive previous left base and a nonzero new left peak, the left
  base \<open>find_lane_pixels\<close> uses and returns is the previous one when
  \<open>|previous - new| / new\<close> exceeds one tenth and the new one otherwise, whatever the
  previous right base is. Previous 100 against new 130 keeps 100; previous 100 against
  new 105 takes 105.
\<close>

theorem left_base_drift_guard:
  "(new_bases img = Inr (new_left, new_right) \<and> 0 < prev_left \<and> new_left \<noteq> 0 \<longrightarrow>
      (\<exists>r. base_locator img (Some prev_left) last_right =
            Inr (if (1 / 10 :: rat) < \<bar>of_int prev_left - of_int new_left\<bar> / of_int new_left
                 then prev_left else new_left, r)) \<and>
      (\<forall>px. find_lane_pixels img (Some prev_left) last_right = Inr px \<longrightarrow>
            leftx_base px =
              (if (1 / 10 :: rat) < \<bar>of_int prev_left - of_int new_left\<bar> / of_int new_left
               then prev_left else new_left))) \<and>
   validate_left (Some 100) 130 = 100 \<and> validate_left (Some 100) 105 = 105"
proof (intro conjI impI)
  assume a: "new_bases img = Inr (new_left, new_right) \<and> 0 < prev_left \<and> new_left \<noteq> 0"
  let ?v = "if (1 / 10 :: rat) < \<bar>of_int prev_left - of_int new_left\<bar> / of_int new_left
            then prev_left else new_left"
  from a new_bases_range[of img new_left new_right] have pos: "0 < new_left" by simp
  have v: "validate_left (Some prev_left) new_left = ?v"
    by (simp add: validate_left_def drift_ratio[OF pos])
  from a base_locator_left[of img new_left new_right prev_left last_right]
  show bl: "\<exists>r. base_locator img (Some prev_left) last_right = Inr (?v, r)"
    by (simp add: v)
  show "\<forall>px. find_lane_pixels img (Some prev_left) last_right = Inr px \<longrightarrow> leftx_base px = ?v"
  proof (intro allI impI)
    fix px assume "find_lane_pixels img (Some prev_left) last_right = Inr px"
    then have "base_locator img (Some prev_left) last_right = Inr (leftx_base px, rightx_base px)"
      by (rule find_lane_pixels_InrD)
    with bl show "leftx_base px = ?v" by auto
  qed
next
  show "validate_left (Some 100) 130 = 100" by (simp add: validate_left_def drift_exceeds_def)
  show "validate_left (Some 100) 105 = 105" by (simp add: validate_left_def drift_exceeds_def)
qed

theorem left_base_drift_guard_witness:
  "new_bases frame_line_130 = Inr (130, 150) \<and> (0::int) < 100 \<and> (130::int) \<noteq> 0 \<and>
   (\<exists>r. base_locator frame_line_130 (Some 100) None = Inr (100, r)) \<and>
   (\<exists>px. find_lane_pixels frame_line_130 (Some 100) None = Inr px \<and> leftx_base px = 100)"
proof -
  have n: "new_bases frame_line_130 = Inr (130, 150)" by code_simp
  have f: "find_lane_pixels frame_line_130 (Some 100) None =
    Inr \<lparr>left_points =
         [(130, 14), (130, 13), (130, 12), (130, 11), (130, 10), (130, 9),
          (130, 8), (130, 7), (130, 6), (130, 5), (130, 4), (130, 3),
          (130, 2), (130, 1), (130, 0)],
         right_points =
           [(130, 14), (130, 13), (130, 12), (130, 11), (130, 10), (130, 9),
            (130, 8), (130, 7), (130, 6), (130, 5), (130, 4), (130, 3),
            (130, 2), (130, 1), (130, 0)],
         avg_lane_dist = 25 / 8, leftx_base = 100, rightx_base = 150\<rparr>"
    by code_simp
  have p: "new_bases frame_line_130 = Inr (130, 150) \<and> (0::int) < 100 \<and> (130::int) \<noteq> 0"
    using n by simp
  note t = left_base_drift_guard[of frame_line_130 130 150 100 None, THEN conjunct1, THEN mp, OF p]
  from t[THEN conjunct1] have "\<exists>r. base_locator frame_line_130 (Some 100) None = Inr (100, r)"
    by simp
  moreover from t[THEN conjunct2] f
  have "\<exists>px. find_lane_pixels frame_line_130 (Some 100) None = Inr px \<and> leftx_base px = 100"
    by simp
  ultimately show ?thesis using p by (intro conjI) simp_all
qed

subsection \<open>C5: when a candidate is accepted\<close>

text \<open>
  Claim C5: \<open>min_pixels\<close> is 2550. For either side of any band the candidate is the
  first column of largest sum in the side's sub-region; it is accepted exactly when that
  column sum is strictly above \<open>min_pixels\<close> and the candidate is not the low boundary
  of the region, and the side is not found otherwise. The two sides use the same rule on
  their own sub-regions.
\<close>

theorem candidate_acceptance:
  "min_pixels = 2550 \<and>
   (find_center area x_low = Inr (Some x) \<longleftrightarrow>
      area \<noteq> [] \<and> min_pixels < area ! argmax area \<and> x = int (argmax area) + x_low \<and> x \<noteq> x_low) \<and>
   (find_center area x_low = Inr None \<longleftrightarrow>
      area \<noteq> [] \<and> (area ! argmax area \<le> min_pixels \<or> int (argmax area) + x_low = x_low)) \<and>
   (find_center area x_low = Inl e \<longleftrightarrow> area = [] \<and> e = ValueError) \<and>
   (area \<noteq> [] \<longrightarrow> argmax area < length area \<and> (\<forall>j<length area. area ! j \<le> area ! argmax area)) \<and>
   detect_left img window st =
     find_center (area_hist img (win_y_low img window) (win_y_high img window)
                    (win_xleft_low st) (win_xleft_high st)) (win_xleft_low st) \<and>
   detect_right img window st =
     find_center (area_hist img (win_y_low img window) (win_y_high img window)
                    (win_xright_low st) (win_xright_high st)) (win_xright_low st)"
proof -
  have m: "min_pixels = 2550" by (simp add: min_pixels_def)
  have nth: "area \<noteq> [] \<Longrightarrow> area ! argmax area = amax area"
    by (rule nth_argmax)
  have a: "find_center area x_low = Inr (Some x) \<longleftrightarrow>
      area \<noteq> [] \<and> min_pixels < area ! argmax area \<and> x = int (argmax area) + x_low \<and> x \<noteq> x_low"
    using nth by (auto simp: find_center_Some)
  have b: "find_center area x_low = Inr None \<longleftrightarrow>
      area \<noteq> [] \<and> (area ! argmax area \<le> min_pixels \<or> int (argmax area) + x_low = x_low)"
    using nth by (auto simp: find_center_None)
  have c: "area \<noteq> [] \<longrightarrow> argmax area < length area \<and> (\<forall>j<length area. area ! j \<le> area ! argmax area)"
    using nth argmax_less[of area] amax_ge[of _ area] by auto
  show ?thesis
    using m a b c find_center_error[of area x_low e]
    by (simp only: detect_left_def detect_right_def simp_thms)
qed

theorem candidate_acceptance_witness:
  "[0, 2550, 2551, 7] \<noteq> ([]::int list) \<and> find_center [0, 2550, 2551, 7] 40 = Inr (Some 42) \<and>
   find_center [0, 2550, 2500, 7] 40 = Inr None \<and>
   find_center [2551, 2550, 2500, 7] 40 = Inr None"
proof -
  have a: "[0, 2550, 2551, 7] \<noteq> ([]::int list) \<and>
      min_pixels < [0, 2550, 2551, 7] ! argmax [0, 2550, 2551, 7] \<and>
      42 = int (argmax [0, 2550, 2551, 7]) + 40 \<and> (42::int) \<noteq> 40"
    by code_simp
  have b: "[0, 2550, 2500, 7] \<noteq> ([]::int list) \<and>
      ([0, 2550, 2500, 7] ! argmax [0, 2550, 2500, 7] \<le> min_pixels \<or>
       int (argmax [0, 2550, 2500, 7]) + 40 = 40)"
    by code_simp
  have c: "[2551, 2550, 2500, 7] \<noteq> ([]::int list) \<and>
      ([2551, 2550, 2500, 7] ! argmax [2551, 2550, 2500, 7] \<le> min_pixels \<or>
       int (argmax [2551, 2550, 2500, 7]) + 40 = 40)"
    by code_simp
  from a candidate_acceptance[of "[0, 2550, 2551, 7]" 40 42, THEN conjunct2, THEN conjunct1]
  have "find_center [0, 2550, 2551, 7] 40 = Inr (Some 42)" by (rule iffD2[rotated])
  moreover from b
    candidate_acceptance[of "[0, 2550, 2500, 7]" 40, THEN conjunct2, THEN conjunct2, THEN conjunct1]
  have "find_center [0, 2550, 2500, 7] 40 = Inr None" by (rule iffD2[rotated])
  moreover from c
    candidate_acceptance[of "[2551, 2550, 2500, 7]" 40, THEN conjunct2, THEN conjunct2, THEN conjunct1]
  have "find_center [2551, 2550, 2500, 7] 40 = Inr None" by (rule iffD2[rotated])
  ultimately show ?thesis by simp
qed

subsection \<open>C6: the low edges of the windows\<close>

text \<open>
  Claim C6 says that the low edge of the search range is clamped to 0 for both sides. The
  code clamps the left one only. On \<open>frame_low_blob\<close> both sides find column 1 in the
  lowest band, and in the next band the low edge of the right window is \<open>1 - 100 = -99\<close>,
  while that of the left window is 0. The negative bound is taken from the end of the row
  by the slice, the sub-region has no column, and the call ends in \<open>ValueError\<close>.
\<close>

theorem right_window_not_clamped:
  "well_formed frame_low_blob \<and> shape0 frame_low_blob = 165 \<and>
   shape1 frame_low_blob = 200 \<and> base_locator frame_low_blob None None = Inr (1, 100) \<and>
   run_windows frame_low_blob [0] (init_tracker 1 100) =
     Inr \<lparr>leftx_current = 1, rightx_current = 1, prev_lane_dist = 0,
          lane_dist_hist = [99, 0], left_lane_points = [(1, 159)],
          right_lane_points = [(1, 159)]\<rparr> \<and>
   win_xright_low \<lparr>leftx_current = 1, rightx_current = 1, prev_lane_dist = 0,
          lane_dist_hist = [99, 0], left_lane_points = [(1, 159)],
          right_lane_points = [(1, 159)]\<rparr> = - 99 \<and>
   win_xleft_low \<lparr>leftx_current = 1, rightx_current = 1, prev_lane_dist = 0,
          lane_dist_hist = [99, 0], left_lane_points = [(1, 159)],
          right_lane_points = [(1, 159)]\<rparr> = 0 \<and>
   find_lane_pixels frame_low_blob None None = Inl ValueError"
  by code_simp

subsection \<open>C7: a peak at column 0\<close>

text \<open>
  Claim C7: when the left peak is column 0 the validation does not fail. A previous left
  base, when there is one, is kept, and without previous bases 0 is accepted. The right
  peak is never column 0, because it is offset by the positive midpoint, so the ratio of
  the right side is always defined.
\<close>

theorem zero_peak_keeps_previous:
  "(new_bases img = Inr (0, new_right) \<longrightarrow>
      (\<exists>r. base_locator img (Some prev_left) last_right = Inr (prev_left, r)) \<and>
      base_locator img None None = Inr (0, new_right)) \<and>
   (new_bases img = Inr (new_left, new_right) \<longrightarrow> 0 < new_right)"
proof (intro conjI impI)
  assume a: "new_bases img = Inr (0, new_right)"
  have "validate_left (Some prev_left) 0 = prev_left"
    by (simp add: validate_left_def drift_exceeds_def)
  with base_locator_left[OF a, of prev_left last_right]
  show "\<exists>r. base_locator img (Some prev_left) last_right = Inr (prev_left, r)" by simp
  from a show "base_locator img None None = Inr (0, new_right)"
    by (simp add: base_locator_no_previous)
next
  assume "new_bases img = Inr (new_left, new_right)"
  then show "0 < new_right" using new_bases_range by blast
qed

theorem zero_peak_keeps_previous_witness:
  "new_bases frame_dark = Inr (0, 100) \<and>
   base_locator frame_dark (Some 37) (Some 120) = Inr (37, 120) \<and>
   base_locator frame_dark (Some 0) None = Inr (0, 100) \<and>
   base_locator frame_dark None None = Inr (0, 100)"
proof -
  have n: "new_bases frame_dark = Inr (0, 100)" by code_simp
  have b: "base_locator frame_dark (Some 37) (Some 120) = Inr (37, 120)"
    "base_locator frame_dark (Some 0) None = Inr (0, 100)"
    by code_simp+
  from zero_peak_keeps_previous[of frame_dark 100 37 "Some 120" 0, THEN conjunct1, THEN mp, OF n]
    zero_peak_keeps_previous[of frame_dark 100 0 None 0, THEN conjunct2, THEN mp, OF n]
    n b
  show ?thesis by simp
qed

subsection \<open>C8: one point per band and side\<close>

text \<open>
  Claim C8, as the code has it: whenever \<open>find_lane_pixels\<close> returns, it returns exactly
  \<open>nwindows = 15\<close> points for each side, the point of band \<open>k\<close> lies at the vertical
  midpoint of that band, and on a mask of at least 15 rows the y values fall strictly
  from one band to the next, so the points run from the bottom of the mask to its top.
  This holds whatever the bands found.
\<close>

theorem tracker_points_per_band:
  assumes "find_lane_pixels img ll lr = Inr px"
  shows "length (left_points px) = 15 \<and> length (right_points px) = 15 \<and>
         (\<forall>k<15. snd (left_points px ! k) = (win_y_low img k + win_y_high img k) div 2 \<and>
                 snd (right_points px ! k) = (win_y_low img k + win_y_high img k) div 2) \<and>
         (15 \<le> shape0 img \<longrightarrow>
            (\<forall>k<14. snd (left_points px ! Suc k) < snd (left_points px ! k) \<and>
                    snd (right_points px ! Suc k) < snd (right_points px ! k)))"
proof -
  from assms obtain st where
    run: "run_windows img [0..<nwindows] (init_tracker (leftx_base px) (rightx_base px)) = Inr st"
    and pts: "left_points px = left_lane_points st" "right_points px = right_lane_points st"
    by (rule find_lane_pixels_InrD)
  from run_windows_points[OF run]
  have ys: "map snd (left_points px) = map (y_index img) [0..<15]"
    "map snd (right_points px) = map (y_index img) [0..<15]"
    by (simp_all add: pts init_tracker_def nwindows_def)
  have len: "length (left_points px) = 15" "length (right_points px) = 15"
    using ys[THEN arg_cong, of length] by simp_all
  have nth: "snd (left_points px ! k) = y_index img k \<and> snd (right_points px ! k) = y_index img k"
    if "k < 15" for k
  proof -
    have "map snd (left_points px) ! k = map (y_index img) [0..<15] ! k"
      "map snd (right_points px) ! k = map (y_index img) [0..<15] ! k"
      by (simp_all only: ys)
    with that len show ?thesis by simp
  qed
  have mid: "\<forall>k<15. snd (left_points px ! k) = (win_y_low img k + win_y_high img k) div 2 \<and>
                 snd (right_points px ! k) = (win_y_low img k + win_y_high img k) div 2"
    using nth y_index_midpoint[of _ img] by (simp add: nwindows_def)
  have dec: "snd (left_points px ! Suc k) < snd (left_points px ! k) \<and>
             snd (right_points px ! Suc k) < snd (right_points px ! k)"
    if h: "15 \<le> shape0 img" and k: "k < 14" for k
  proof -
    from h have "1 \<le> window_height img" by (simp add: window_height_def nwindows_def)
    moreover from k have "y_index img (Suc k) = y_index img k - window_height img"
      by (intro y_index_step) (simp add: nwindows_def)
    ultimately show ?thesis using nth[of k] nth[of "Suc k"] k by simp
  qed
  from len mid dec show ?thesis by blast
qed

theorem tracker_points_per_band_witness:
  "\<exists>px. find_lane_pixels frame_left_line None None = Inr px \<and> 15 \<le> shape0 frame_left_line \<and>
     length (left_points px) = 15 \<and> length (right_points px) = 15 \<and>
     (\<forall>k<14. snd (left_points px ! Suc k) < snd (left_points px ! k))"
proof -
  have h: "find_lane_pixels frame_left_line None None =
      Inr \<lparr>left_points =
         [(50, 14), (50, 13), (50, 12), (50, 11), (50, 10), (50, 9),
          (50, 8), (50, 7), (50, 6), (50, 5), (50, 4), (50, 3), (50, 2),
          (50, 1), (50, 0)],
         right_points =
           [(200, 14), (200, 13), (200, 12), (200, 11), (200, 10), (200, 9),
            (200, 8), (200, 7), (200, 6), (200, 5), (200, 4), (200, 3),
            (200, 2), (200, 1), (200, 0)],
         avg_lane_dist = 150, leftx_base = 50, rightx_base = 200\<rparr>"
    by code_simp
  have s: "15 \<le> shape0 frame_left_line" by code_simp
  from tracker_points_per_band[OF h] s show ?thesis
    unfolding h by blast
qed

text \<open>
  Claim C8 as stated, for every mask with \<open>H \<ge> nwindows\<close> and \<open>W \<ge> 2 * margin\<close>, fails:
  on \<open>frame_bend\<close> the left line is followed to column 195 in band 1 while the right
  side is filled in at column 393, so the right window of band 2 starts at column 293 of
  a mask of 200 columns, its sub-region has no column, and \<open>np.max\<close> raises. The code
  clamps no high edge and catches no exception in the tracker.
\<close>

theorem tracker_stops_on_bend:
  "int nwindows \<le> int (shape0 frame_bend) \<and> 2 * margin \<le> int (shape1 frame_bend) \<and>
   well_formed frame_bend \<and> find_lane_pixels frame_bend None None = Inl ValueError"
proof -
  have "int nwindows \<le> int (shape0 frame_bend) \<and> 2 * margin \<le> int (shape1 frame_bend) \<and>
    well_formed frame_bend"
    by code_simp
  with frame_bend_raises show ?thesis by simp
qed

subsection \<open>C9: the histogram and its two peaks\<close>

text \<open>
  Claim C9: on a well-formed mask of at least two columns the histogram has one entry per
  column, entry \<open>j\<close> being the sum of column \<open>j\<close> over the rows from \<open>H div 2\<close> down; with
  no previous bases the left base is the first largest entry among the columns below
  \<open>W div 2\<close> and the right base is the first largest entry among the others, offset by
  \<open>W div 2\<close>. When the only nonzero pixels of the mask are a full-height line of positive
  values at column \<open>c\<close>, the base of the half that holds \<open>c\<close> is \<open>c\<close>.
\<close>

theorem histogram_base_location:
  assumes wf: "well_formed img" and w: "2 \<le> shape1 img"
  shows "length (histogram img) = shape1 img \<and>
    (\<forall>j<shape1 img. histogram img ! j = (\<Sum>r\<leftarrow>drop (shape0 img div 2) (pixel_rows img). r ! j)) \<and>
    base_locator img None None =
      Inr (int (argmax (take (shape1 img div 2) (histogram img))),
           int (argmax (drop (shape1 img div 2) (histogram img))) + int (shape1 img div 2)) \<and>
    (\<forall>xs. xs \<noteq> [] \<longrightarrow> argmax xs < length xs \<and> (\<forall>j<length xs. xs ! j \<le> xs ! argmax xs) \<and>
          (\<forall>j<argmax xs. xs ! j < xs ! argmax xs)) \<and>
    (c < shape1 img \<and> 0 < shape0 img \<and>
     (\<forall>r\<in>set (pixel_rows img). 0 < r ! c \<and> (\<forall>j<shape1 img. j \<noteq> c \<longrightarrow> r ! j = 0)) \<longrightarrow>
       (c < shape1 img div 2 \<longrightarrow> (\<exists>r. base_locator img None None = Inr (int c, r))) \<and>
       (shape1 img div 2 \<le> c \<longrightarrow> (\<exists>l. base_locator img None None = Inr (l, int c))))"
proof -
  let ?h = "histogram img"
  let ?m = "shape1 img div 2"
  have len: "length ?h = shape1 img" by (rule histogram_length[OF wf])
  have nth: "\<forall>j<shape1 img. ?h ! j = (\<Sum>r\<leftarrow>drop (shape0 img div 2) (pixel_rows img). r ! j)"
    using histogram_nth[OF wf] by blast
  have bl: "base_locator img None None =
      Inr (int (argmax (take ?m ?h)), int (argmax (drop ?m ?h)) + int ?m)"
    using new_bases_Inr[of img] w by (simp add: base_locator_no_previous len)
  have am: "\<forall>xs. xs \<noteq> [] \<longrightarrow> argmax xs < length xs \<and> (\<forall>j<length xs. xs ! j \<le> xs ! argmax xs) \<and>
          (\<forall>j<argmax xs. xs ! j < xs ! argmax xs)"
    using argmax_less nth_argmax before_argmax amax_ge nth_mem by metis
  have band: "(c < ?m \<longrightarrow> (\<exists>r. base_locator img None None = Inr (int c, r))) \<and>
       (?m \<le> c \<longrightarrow> (\<exists>l. base_locator img None None = Inr (l, int c)))"
    if c: "c < shape1 img" and h: "0 < shape0 img"
      and px: "\<forall>r\<in>set (pixel_rows img). 0 < r ! c \<and> (\<forall>j<shape1 img. j \<noteq> c \<longrightarrow> r ! j = 0)"
  proof -
    let ?rs = "drop (shape0 img div 2) (pixel_rows img)"
    from h have "shape0 img div 2 < shape0 img" by simp
    then have ne: "?rs \<noteq> []" by (simp add: shape0_def)
    have sub: "\<forall>r\<in>set ?rs. r \<in> set (pixel_rows img)" by (auto dest: in_set_dropD)
    have peak: "0 < ?h ! c"
      using nth c sum_list_pos_int[OF ne, of "\<lambda>r. r ! c"] px sub by simp
    have zero: "?h ! j = 0" if "j < shape1 img" "j \<noteq> c" for j
    proof -
      have "\<forall>r\<in>set ?rs. r ! j = 0" using px sub that by blast
      then have "(\<Sum>r\<leftarrow>?rs. r ! j) = 0" by (rule sum_list_zero_int)
      with nth that show ?thesis by simp
    qed
    have left: "argmax (take ?m ?h) = c" if "c < ?m"
      using that peak zero len by (intro argmax_single_peak) auto
    have right: "argmax (drop ?m ?h) = c - ?m" if "?m \<le> c"
    proof (rule argmax_single_peak)
      show "c - ?m < length (drop ?m ?h)" using that c len by simp
      show "0 < drop ?m ?h ! (c - ?m)" using that c len peak by simp
      show "\<forall>j<length (drop ?m ?h). j \<noteq> c - ?m \<longrightarrow> drop ?m ?h ! j = 0"
        using that len zero by auto
    qed
    from left right bl show ?thesis by auto
  qed
  from len nth bl am band show ?thesis by blast
qed

theorem histogram_base_location_witness:
  "well_formed frame_left_line \<and> 2 \<le> shape1 frame_left_line \<and> 50 < shape1 frame_left_line \<and>
   0 < shape0 frame_left_line \<and> 50 < shape1 frame_left_line div 2 \<and>
   (\<exists>r. base_locator frame_left_line None None = Inr (50, r))"
proof -
  have a: "well_formed frame_left_line" "2 \<le> shape1 frame_left_line" "50 < shape1 frame_left_line"
    "0 < shape0 frame_left_line" "50 < shape1 frame_left_line div 2"
    by code_simp+
  have b: "\<forall>r\<in>set (pixel_rows frame_left_line).
      0 < r ! 50 \<and> (\<forall>j<shape1 frame_left_line. j \<noteq> 50 \<longrightarrow> r ! j = 0)"
    by (simp add: frame_left_line_def shape1_def nth_append nth_Cons')
  have p: "50 < shape1 frame_left_line \<and> 0 < shape0 frame_left_line \<and>
    (\<forall>r\<in>set (pixel_rows frame_left_line).
      0 < r ! 50 \<and> (\<forall>j<shape1 frame_left_line. j \<noteq> 50 \<longrightarrow> r ! j = 0))"
    using a b by (intro conjI)
  note histogram_base_location[OF a(1,2), of 50, THEN conjunct2, THEN conjunct2,
      THEN conjunct2, THEN conjunct2, THEN mp, OF p, THEN conjunct1, THEN mp, OF a(5)]
  then have "\<exists>r. base_locator frame_left_line None None = Inr (50, r)" by simp
  with a show ?thesis by (intro conjI)
qed

subsection \<open>C10: the width history is never empty\<close>

text \<open>
  Claim C10: after any number of bands the width history holds at least one sample, its
  first sample is the seed \<open>rightx_base - leftx_base\<close>, and the last known width is
  its most recent sample; the average a frame returns is the sum of the history of the
  finished run divided by its positive length.
\<close>

theorem width_history_never_empty:
  "(run_windows img [0..<k] (init_tracker lb rb) = Inr st \<longrightarrow>
      lane_dist_hist st \<noteq> [] \<and> hd (lane_dist_hist st) = rb - lb \<and>
      prev_lane_dist st = last (lane_dist_hist st)) \<and>
   (find_lane_pixels img ll lr = Inr px \<longrightarrow>
      (\<exists>st. run_windows img [0..<nwindows] (init_tracker (leftx_base px) (rightx_base px)) = Inr st \<and>
            0 < length (lane_dist_hist st) \<and>
            hd (lane_dist_hist st) = rightx_base px - leftx_base px \<and>
            avg_lane_dist px =
              of_int (sum_list (lane_dist_hist st)) / of_nat (length (lane_dist_hist st))))"
proof (rule conjI; rule impI)
  assume run: "run_windows img [0..<k] (init_tracker lb rb) = Inr st"
  from run_windows_history[OF run]
  show "lane_dist_hist st \<noteq> [] \<and> hd (lane_dist_hist st) = rb - lb \<and>
      prev_lane_dist st = last (lane_dist_hist st)"
    by (simp add: init_tracker_def)
next
  assume "find_lane_pixels img ll lr = Inr px"
  then obtain st where
    run: "run_windows img [0..<nwindows] (init_tracker (leftx_base px) (rightx_base px)) = Inr st"
    and avg: "avg_lane_dist px = average (lane_dist_hist st)"
    by (rule find_lane_pixels_InrD)
  from run_windows_history[OF run]
  have "lane_dist_hist st \<noteq> []" "hd (lane_dist_hist st) = rightx_base px - leftx_base px"
    by (simp_all add: init_tracker_def)
  with run avg show "\<exists>st. run_windows img [0..<nwindows] (init_tracker (leftx_base px) (rightx_base px)) = Inr st \<and>
            0 < length (lane_dist_hist st) \<and>
            hd (lane_dist_hist st) = rightx_base px - leftx_base px \<and>
            avg_lane_dist px =
              of_int (sum_list (lane_dist_hist st)) / of_nat (length (lane_dist_hist st))"
    by (auto simp: average_def)
qed

theorem width_history_never_empty_witness:
  "\<exists>st px. run_windows frame_dark [0..<15] (init_tracker 0 100) = Inr st \<and>
     find_lane_pixels frame_dark None None = Inr px \<and>
     lane_dist_hist st = [100] \<and> prev_lane_dist st = 100 \<and> avg_lane_dist px = 100"
proof -
  have r: "run_windows frame_dark [0..<15] (init_tracker 0 100) =
     Inr \<lparr>leftx_current = 99, rightx_current = 100, prev_lane_dist = 100,
          lane_dist_hist = [100],
          left_lane_points =
         [(50, 14), (75, 13), (87, 12), (93, 11), (96, 10), (98, 9),
          (99, 8), (99, 7), (99, 6), (99, 5), (99, 4), (99, 3), (99, 2),
          (99, 1), (99, 0)],
         right_lane_points =
           [(100, 14), (100, 13), (100, 12), (100, 11), (100, 10), (100, 9),
            (100, 8), (100, 7), (100, 6), (100, 5), (100, 4), (100, 3),
            (100, 2), (100, 1), (100, 0)]\<rparr>"
    by code_simp
  have f: "find_lane_pixels frame_dark None None =
     Inr \<lparr>left_points =
         [(50, 14), (75, 13), (87, 12), (93, 11), (96, 10), (98, 9),
          (99, 8), (99, 7), (99, 6), (99, 5), (99, 4), (99, 3), (99, 2),
          (99, 1), (99, 0)],
         right_points =
           [(100, 14), (100, 13), (100, 12), (100, 11), (100, 10), (100, 9),
            (100, 8), (100, 7), (100, 6), (100, 5), (100, 4), (100, 3),
            (100, 2), (100, 1), (100, 0)],
         avg_lane_dist = 100, leftx_base = 0, rightx_base = 100\<rparr>"
    by code_simp
  from width_history_never_empty[of frame_dark 15 0 100 _ None None] r f
  show ?thesis by simp
qed

end
